theory Spec2Isabelle
  imports Complex_Main "HOL-Library.Word"
begin

section \<open>Anchor boxes for detection: a model of utils/detection.py\<close>

text \<open>
  The module works on torch tensors and numpy arrays of floats. The model reads a float
  as a real number: additions, products, quotients, square roots and logarithms are the
  exact ones, and rounding is left out. A float that is not finite (inf or NaN, the
  result of a division by zero or of a logarithm outside its domain) has no real value;
  the operations that can produce one return \<open>None\<close> for it.

  A tensor of shape (N, 4) is a list of N rows, a row being a 4-tuple. The column slices
  of the source (\<open>t[:, 0]\<close>, \<open>t[:, :2]\<close>, \<open>t[:, 2:]\<close>) are the components of the
  tuple. A LongTensor holds 64-bit integers.
\<close>

type_synonym box = "real \<times> real \<times> real \<times> real"

type_synonym delta = "real option \<times> real option \<times> real option \<times> real option"

type_synonym long = "64 word"

datatype error = ValueError | ZeroDivisionError | RuntimeError | IndexError | NonFinite

subsection \<open>Float operations that can leave the finite range\<close>

definition fdiv :: "real \<Rightarrow> real \<Rightarrow> real option" where
  "fdiv a b = (if b = 0 then None else Some (a / b))"

definition flog :: "real option \<Rightarrow> real option" where
  "flog v = (case v of None \<Rightarrow> None
             | Some x \<Rightarrow> if x \<le> 0 then None else Some (ln x))"

subsection \<open>Conversions between the three box formats\<close>

text \<open>
  Each conversion clones its argument and overwrites columns of the clone with values
  computed from the argument, so every written column is a function of the original row.
\<close>

definition convert_bbox_topleft_xywh_tensor_to_center_xywh :: "box list \<Rightarrow> box list" where
  "convert_bbox_topleft_xywh_tensor_to_center_xywh bbox_topleft_xywh_tensor =
     map (\<lambda>(x0, y0, w, h). (x0 + w * 0.5, y0 + h * 0.5, w, h)) bbox_topleft_xywh_tensor"

definition convert_bbox_center_xywh_tensor_to_xyxy :: "box list \<Rightarrow> box list" where
  "convert_bbox_center_xywh_tensor_to_xyxy bbox_center_xywh_tensor =
     map (\<lambda>(cx, cy, w, h). (cx - w * 0.5, cy - h * 0.5, cx + w * 0.5, cy + h * 0.5))
       bbox_center_xywh_tensor"

definition convert_bbox_topleft_xywh_tensor_to_xyxy :: "box list \<Rightarrow> box list" where
  "convert_bbox_topleft_xywh_tensor_to_xyxy bbox_topleft_xywh_tensor =
     map (\<lambda>(x0, y0, w, h). (x0, y0, x0 + w, y0 + h)) bbox_topleft_xywh_tensor"

definition convert_bbox_center_xywh_tensor_to_topleft_xywh :: "box list \<Rightarrow> box list" where
  "convert_bbox_center_xywh_tensor_to_topleft_xywh bbox_center_xywh_tensor =
     map (\<lambda>(cx, cy, w, h). (cx - w * 0.5, cy - h * 0.5, w, h)) bbox_center_xywh_tensor"

subsection \<open>Intersection over union\<close>

definition clamp_min :: "real \<Rightarrow> real \<Rightarrow> real" where
  "clamp_min lo x = max lo x"

definition box_area_xyxy :: "box \<Rightarrow> real" where
  "box_area_xyxy b = (case b of (x0, y0, x1, y1) \<Rightarrow> (x1 - x0) * (y1 - y0))"

text \<open>
  \<open>compute_bboxes_ious\<close> broadcasts group 1 (shape (N, 1, 2)) against group 2 (shape
  (M, 2)): every intermediate tensor is a list of N rows of M entries.
\<close>

definition compute_bboxes_ious :: "box list \<Rightarrow> box list \<Rightarrow> real option list list" where
  "compute_bboxes_ious bboxes_xyxy_group_1 bboxes_xyxy_group_2 =
     (let top_left =
            map (\<lambda>(ax0, ay0, ax1, ay1).
                   map (\<lambda>(bx0, by0, bx1, by1). (max ax0 bx0, max ay0 by0)) bboxes_xyxy_group_2)
              bboxes_xyxy_group_1;
          bottom_right =
            map (\<lambda>(ax0, ay0, ax1, ay1).
                   map (\<lambda>(bx0, by0, bx1, by1). (min ax1 bx1, min ay1 by1)) bboxes_xyxy_group_2)
              bboxes_xyxy_group_1;
          intersections_bboxes_width_height =
            map2 (map2 (\<lambda>(brx, bry) (tlx, tly). (clamp_min 0 (brx - tlx), clamp_min 0 (bry - tly))))
              bottom_right top_left;
          intersections_bboxes_areas =
            map (map (\<lambda>(w, h). w * h)) intersections_bboxes_width_height;
          bboxes_group_1_areas = map box_area_xyxy bboxes_xyxy_group_1;
          bboxes_group_2_areas = map box_area_xyxy bboxes_xyxy_group_2
      in map2 (\<lambda>area_1 row. map2 (\<lambda>area_2 inter. fdiv inter (area_1 + area_2 - inter))
                                bboxes_group_2_areas row)
           bboxes_group_1_areas intersections_bboxes_areas)"

subsection \<open>Size of the output feature map\<close>

text \<open>
  \<open>compute_network_output_feature_map_size\<close> divides both entries of the image size by
  the stride as floats and rounds up. A stride of 0 makes the quotients inf or NaN, whose
  cast to an integer is not a value of the model: the result is \<open>None\<close> there.
\<close>

definition compute_network_output_feature_map_size :: "int \<times> int \<Rightarrow> int \<Rightarrow> (int \<times> int) option" where
  "compute_network_output_feature_map_size input_img_size stride =
     (if stride = 0 then None
      else Some (\<lceil>real_of_int (fst input_img_size) / real_of_int stride\<rceil>,
                 \<lceil>real_of_int (snd input_img_size) / real_of_int stride\<rceil>))"

subsection \<open>The anchor box manager\<close>

record AnchorBoxesManager =
  input_image_size :: "int \<times> int"
  anchor_areas :: "real list"
  aspect_ratios :: "real list"
  stride :: int
  anchor_boxes :: "box list"

text \<open>
  The body of the inner loop of \<open>get_anchor_boxes_sizes\<close>: \<open>math.sqrt\<close> raises
  ValueError on a negative argument, and the float division \<open>area / w\<close> raises
  ZeroDivisionError when the root is 0.
\<close>

definition anchor_box_size :: "real \<Rightarrow> real \<Rightarrow> error + (real \<times> real)" where
  "anchor_box_size current_anchor_area current_aspect_ratio =
     (if current_aspect_ratio * current_anchor_area < 0 then Inl ValueError
      else let w = sqrt (current_aspect_ratio * current_anchor_area)
           in if w = 0 then Inl ZeroDivisionError
              else Inr (w, current_anchor_area / w))"

fun sizes_over_ratios :: "real \<Rightarrow> real list \<Rightarrow> (real \<times> real) list \<Rightarrow> error + (real \<times> real) list" where
  "sizes_over_ratios current_anchor_area [] anchor_boxes_sizes = Inr anchor_boxes_sizes"
| "sizes_over_ratios current_anchor_area (current_aspect_ratio # rest) anchor_boxes_sizes =
     (case anchor_box_size current_anchor_area current_aspect_ratio of
        Inl e \<Rightarrow> Inl e
      | Inr wh \<Rightarrow> sizes_over_ratios current_anchor_area rest (anchor_boxes_sizes @ [wh]))"

fun sizes_over_areas :: "real list \<Rightarrow> real list \<Rightarrow> (real \<times> real) list \<Rightarrow> error + (real \<times> real) list" where
  "sizes_over_areas [] ratios anchor_boxes_sizes = Inr anchor_boxes_sizes"
| "sizes_over_areas (current_anchor_area # rest) ratios anchor_boxes_sizes =
     (case sizes_over_ratios current_anchor_area ratios anchor_boxes_sizes of
        Inl e \<Rightarrow> Inl e
      | Inr sizes \<Rightarrow> sizes_over_areas rest ratios sizes)"

text \<open>The result has shape (1, K, 2): one row holding the K sizes.\<close>

definition get_anchor_boxes_sizes :: "AnchorBoxesManager \<Rightarrow> error + (real \<times> real) list list" where
  "get_anchor_boxes_sizes self =
     (case sizes_over_areas (anchor_areas self) (aspect_ratios self) [] of
        Inl e \<Rightarrow> Inl e
      | Inr anchor_boxes_sizes \<Rightarrow> Inr [anchor_boxes_sizes])"

text \<open>Python's \<open>range(n)\<close>: empty when n is not positive.\<close>

definition py_range :: "int \<Rightarrow> int list" where
  "py_range n = map int [0..<nat n]"

text \<open>
  \<open>np.meshgrid(xs, ys)\<close> with its default indexing: two arrays of shape
  (len ys, len xs), the first holding \<open>xs\<close> in every row, the second constant along
  each row.
\<close>

definition meshgrid :: "'a list \<Rightarrow> 'b list \<Rightarrow> 'a list list \<times> 'b list list" where
  "meshgrid xs ys = (map (\<lambda>y. xs) ys, map (\<lambda>y. map (\<lambda>x. y) xs) ys)"

definition flatten :: "'a list list \<Rightarrow> 'a list" where
  "flatten xss = concat xss"

text \<open>
  \<open>zip\<close> is the one of Python 2, which returns a list (the module is Python 2 code: under
  Python 3 \<open>np.asarray\<close> of a zip object is not an array of pairs). The result has
  shape (C, 1, 2): C rows of one center each.
\<close>

definition get_anchor_boxes_center_coordinates ::
    "AnchorBoxesManager \<Rightarrow> int \<times> int \<Rightarrow> error + (real \<times> real) list list" where
  "get_anchor_boxes_center_coordinates self input_size =
     (case compute_network_output_feature_map_size input_size (stride self) of
        None \<Rightarrow> Inl NonFinite
      | Some (feature_map_height, feature_map_width) \<Rightarrow>
          (case meshgrid (py_range feature_map_width) (py_range feature_map_height) of
             (meshgrid_width, meshgrid_height) \<Rightarrow>
               let anchor_coordinates_feature_map =
                     zip (flatten meshgrid_height) (flatten meshgrid_width);
                   anchor_coordinates_feature_map =
                     map (\<lambda>(a, b). (real_of_int a + 0.5, real_of_int b + 0.5))
                       anchor_coordinates_feature_map;
                   anchor_coordinates_input =
                     map (\<lambda>(a, b). (a * real_of_int (stride self), b * real_of_int (stride self)))
                       anchor_coordinates_feature_map
               in Inr (map (\<lambda>c. [c]) anchor_coordinates_input)))"

text \<open>\<open>a.repeat(n, axis=0)\<close> and \<open>a.repeat(n, axis=1)\<close>: every entry along the axis n times in a row.\<close>

definition repeat_axis0 :: "nat \<Rightarrow> 'a list \<Rightarrow> 'a list" where
  "repeat_axis0 n xs = concat (map (replicate n) xs)"

definition repeat_axis1 :: "nat \<Rightarrow> 'a list list \<Rightarrow> 'a list list" where
  "repeat_axis1 n xss = map (repeat_axis0 n) xss"

definition dstack :: "('a \<times> 'a) list list \<Rightarrow> ('a \<times> 'a) list list \<Rightarrow> ('a \<times> 'a \<times> 'a \<times> 'a) list list" where
  "dstack xss yss = map2 (map2 (\<lambda>(a, b) (c, d). (a, b, c, d))) xss yss"

definition precompute_anchor_boxes :: "AnchorBoxesManager \<Rightarrow> int \<times> int \<Rightarrow> error + AnchorBoxesManager" where
  "precompute_anchor_boxes self input_size =
     (case get_anchor_boxes_sizes self of
        Inl e \<Rightarrow> Inl e
      | Inr anchor_boxes_sizes \<Rightarrow>
          (case get_anchor_boxes_center_coordinates self input_size of
             Inl e \<Rightarrow> Inl e
           | Inr anchor_boxes_center_coordinates \<Rightarrow>
               let anchor_boxes_sizes_number = length (hd anchor_boxes_sizes);
                   anchor_boxes_center_coordinates_number = length anchor_boxes_center_coordinates;
                   anchor_boxes_center_coordinates_repeated =
                     repeat_axis1 anchor_boxes_sizes_number anchor_boxes_center_coordinates;
                   anchor_boxes_sizes_repeated =
                     repeat_axis0 anchor_boxes_center_coordinates_number anchor_boxes_sizes;
                   anchor_boxes =
                     dstack anchor_boxes_center_coordinates_repeated anchor_boxes_sizes_repeated
               in Inr (self\<lparr>anchor_boxes := flatten anchor_boxes\<rparr>)))"

text \<open>The constructor stores its arguments and precomputes the anchor boxes.\<close>

definition init :: "int \<times> int \<Rightarrow> real list \<Rightarrow> real list \<Rightarrow> int \<Rightarrow> error + AnchorBoxesManager" where
  "init input_image_size' anchor_areas' aspect_ratios' stride' =
     precompute_anchor_boxes
       \<lparr>input_image_size = input_image_size', anchor_areas = anchor_areas',
        aspect_ratios = aspect_ratios', stride = stride', anchor_boxes = []\<rparr>
       input_image_size'"

subsection \<open>Encoding the ground truth against the anchor boxes\<close>

text \<open>
  \<open>t.max(1)\<close> of torch, on one row: the scan keeps the greatest value seen so far and
  its index, and replaces them only by a strictly greater value. A row with a value that
  is not finite is outside the model (\<open>NonFinite\<close>); a reduction over an empty
  dimension is an error of torch.
\<close>

fun max_scan :: "real \<Rightarrow> nat \<Rightarrow> nat \<Rightarrow> real list \<Rightarrow> real \<times> nat" where
  "max_scan the_max the_index i [] = (the_max, the_index)"
| "max_scan the_max the_index i (v # vs) =
     (if the_max < v then max_scan v i (Suc i) vs
      else max_scan the_max the_index (Suc i) vs)"

definition row_max :: "real option list \<Rightarrow> error + (real \<times> nat)" where
  "row_max row =
     (case those row of
        None \<Rightarrow> Inl NonFinite
      | Some [] \<Rightarrow> Inl RuntimeError
      | Some (v # vs) \<Rightarrow> Inr (max_scan v 0 1 vs))"

fun collect :: "(error + 'a) list \<Rightarrow> error + 'a list" where
  "collect [] = Inr []"
| "collect (r # rs) =
     (case r of
        Inl e \<Rightarrow> Inl e
      | Inr v \<Rightarrow> (case collect rs of Inl e \<Rightarrow> Inl e | Inr vs \<Rightarrow> Inr (v # vs)))"

definition tensor_max_dim1 :: "nat \<Rightarrow> real option list list \<Rightarrow> error + (real \<times> nat) list" where
  "tensor_max_dim1 m t = (if m = 0 then Inl RuntimeError else collect (map row_max t))"

text \<open>Indexing a tensor by a tensor of indices: a copy of the selected rows.\<close>

definition index_select :: "'a list \<Rightarrow> nat list \<Rightarrow> error + 'a list" where
  "index_select t ids =
     (if list_all (\<lambda>i. i < length t) ids then Inr (map (\<lambda>i. t ! i) ids) else Inl IndexError)"

text \<open>\<open>t[mask] = v\<close> on a one-dimensional tensor.\<close>

definition masked_fill :: "'a list \<Rightarrow> bool list \<Rightarrow> 'a \<Rightarrow> 'a list" where
  "masked_fill t msk v = map2 (\<lambda>x m. if m then v else x) t msk"

text \<open>
  The matching stage of \<open>encode\<close>: the conversion of both groups to xyxy and the IoU
  matrix (one row for each anchor box), then the maximum along the ground-truth axis,
  which gives for every anchor box the best IoU and the index of the ground-truth box
  that attains it.
\<close>

definition anchor_groundtruth_ious :: "AnchorBoxesManager \<Rightarrow> box list \<Rightarrow> real option list list" where
  "anchor_groundtruth_ious self ground_truth_boxes_center_xywh =
     (let anchor_boxes_center_xywh = anchor_boxes self;
          anchor_boxes_xyxy = convert_bbox_center_xywh_tensor_to_xyxy anchor_boxes_center_xywh;
          ground_truth_boxes_xyxy =
            convert_bbox_center_xywh_tensor_to_xyxy ground_truth_boxes_center_xywh
      in compute_bboxes_ious anchor_boxes_xyxy ground_truth_boxes_xyxy)"

definition best_groundtruth_match :: "AnchorBoxesManager \<Rightarrow> box list \<Rightarrow> error + (real \<times> nat) list" where
  "best_groundtruth_match self ground_truth_boxes_center_xywh =
     (let ious = anchor_groundtruth_ious self ground_truth_boxes_center_xywh
      in tensor_max_dim1 (length ground_truth_boxes_center_xywh) ious)"

text \<open>Every entry of a matrix is a finite float.\<close>

definition all_finite :: "real option list list \<Rightarrow> bool" where
  "all_finite t = list_all (list_all (\<lambda>v. v \<noteq> None)) t"

definition encode :: "AnchorBoxesManager \<Rightarrow> box list \<Rightarrow> long list \<Rightarrow> error + (delta list \<times> long list)" where
  "encode self ground_truth_boxes_center_xywh ground_truth_labels =
     (let anchor_boxes_center_xywh = anchor_boxes self
      in case best_groundtruth_match self ground_truth_boxes_center_xywh of
           Inl e \<Rightarrow> Inl e
         | Inr best \<Rightarrow>
             let anchor_boxes_best_groundtruth_match_ious = map fst best;
                 anchor_boxes_best_groundtruth_match_ids = map snd best
             in case index_select ground_truth_boxes_center_xywh
                       anchor_boxes_best_groundtruth_match_ids of
                  Inl e \<Rightarrow> Inl e
                | Inr groundtruth_boxes_center_xywh_best_match_anchorwise \<Rightarrow>
                    let delta_xy =
                          map2 (\<lambda>(gx, gy, gw, gh) (ax, ay, aw, ah).
                                  (fdiv (gx - ax) aw, fdiv (gy - ay) ah))
                            groundtruth_boxes_center_xywh_best_match_anchorwise
                            anchor_boxes_center_xywh;
                        delta_wh =
                          map2 (\<lambda>(gx, gy, gw, gh) (ax, ay, aw, ah).
                                  (flog (fdiv gw aw), flog (fdiv gh ah)))
                            groundtruth_boxes_center_xywh_best_match_anchorwise
                            anchor_boxes_center_xywh;
                        target_deltas =
                          map2 (\<lambda>(dx, dy) (dw, dh). (dx, dy, dw, dh)) delta_xy delta_wh
                    in case index_select ground_truth_labels
                              anchor_boxes_best_groundtruth_match_ids of
                         Inl e \<Rightarrow> Inl e
                       | Inr matched_labels \<Rightarrow>
                           let target_labels = map (\<lambda>l. l + 1) matched_labels;
                               target_labels =
                                 masked_fill target_labels
                                   (map (\<lambda>v. v < 0.5) anchor_boxes_best_groundtruth_match_ious) 0;
                               ignore =
                                 map2 (\<lambda>a b. a \<and> b)
                                   (map (\<lambda>v. 0.4 < v) anchor_boxes_best_groundtruth_match_ious)
                                   (map (\<lambda>v. v < 0.5) anchor_boxes_best_groundtruth_match_ious);
                               target_labels = masked_fill target_labels ignore (- 1)
                           in Inr (target_deltas, target_labels))"

subsection \<open>Padding an image and its bounding boxes\<close>

text \<open>
  A PIL image is its size (width, height) and its pixels. \<open>ImageOps.expand\<close> with a
  border of four entries (left, top, right, bottom) makes a new image of the enlarged size,
  filled with the fill value, and pastes the old image at (left, top).
\<close>

record 'p image =
  img_size :: "int \<times> int"
  pixel :: "int \<Rightarrow> int \<Rightarrow> 'p"

definition ImageOps_expand :: "'p image \<Rightarrow> int \<times> int \<times> int \<times> int \<Rightarrow> 'p \<Rightarrow> 'p image" where
  "ImageOps_expand img border fill =
     (case border of (b_left, b_top, b_right, b_bottom) \<Rightarrow>
        (case img_size img of (w, h) \<Rightarrow>
           \<lparr>img_size = (b_left + w + b_right, b_top + h + b_bottom),
            pixel = (\<lambda>x y. if b_left \<le> x \<and> x < b_left + w \<and> b_top \<le> y \<and> y < b_top + h
                            then pixel img (x - b_left) (y - b_top) else fill)\<rparr>))"

definition pad_to_size_with_bounding_boxes ::
    "'p image \<Rightarrow> int \<times> int \<Rightarrow> box list \<Rightarrow> 'p \<Rightarrow> 'p image \<times> box list" where
  "pad_to_size_with_bounding_boxes input_img size' bboxes_center_xywh fill_label =
     (let input_size = img_size input_img;
          padded_size = size';
          difference = (fst padded_size - fst input_size, snd padded_size - snd input_size);
          parts_to_expand = (0 < fst difference, 0 < snd difference);
          expand_difference =
            (fst difference * (if fst parts_to_expand then 1 else 0),
             snd difference * (if snd parts_to_expand then 1 else 0));
          expand_difference_top_and_left = (fst expand_difference div 2, snd expand_difference div 2);
          expand_difference_bottom_and_right =
            (fst expand_difference - fst expand_difference_top_and_left,
             snd expand_difference - snd expand_difference_top_and_left);
          pil_expand_array =
            (fst expand_difference_top_and_left, snd expand_difference_top_and_left,
             fst expand_difference_bottom_and_right, snd expand_difference_bottom_and_right);
          processed_img =
            (if pil_expand_array \<noteq> (0, 0, 0, 0)
             then ImageOps_expand input_img pil_expand_array fill_label
             else input_img);
          bboxes_center_xywhh_padded =
            map (\<lambda>(cx, cy, w, h).
                   (cx + real_of_int (fst expand_difference_top_and_left),
                    cy + real_of_int (snd expand_difference_top_and_left), w, h))
              bboxes_center_xywh
      in (processed_img, bboxes_center_xywhh_padded))"

subsection \<open>Tensors as objects: encode on a store\<close>

text \<open>
  Tensors are objects: \<open>clone\<close> makes a new one, an indexed assignment
  (\<open>t[:, 0] = ...\<close>, \<open>t[mask] = v\<close>) changes one in place, and two names can stand
  for the same object (\<open>anchor_boxes_center_xywh = self.anchor_boxes\<close>). To say which
  objects a call changes, \<open>encode\<close> and the conversion it calls are modelled a second time
  over a store of tensor objects, addressed by references. The arithmetic operations of
  torch (broadcast maximum and minimum, clamp, the products and quotients, \<open>max(1)\<close>,
  indexing by a tensor of indices, \<open>log\<close>, \<open>cat\<close>, the comparisons) return new
  tensors that nothing else refers to; they stay values, and only the tensors that are
  cloned, written in place or returned get an address.
\<close>

datatype tensor = FloatTensor "box list" | DeltaTensor "delta list" | LongTensor "long list"

text \<open>The store: every tensor object has an address, its position in the list.\<close>

type_synonym store = "tensor list"

definition lookup :: "store \<Rightarrow> nat \<Rightarrow> tensor option" where
  "lookup s a = (if a < length s then Some (s ! a) else None)"

definition alloc :: "tensor \<Rightarrow> store \<Rightarrow> nat \<times> store" where
  "alloc t s = (length s, s @ [t])"

definition read_float :: "store \<Rightarrow> nat \<Rightarrow> box list option" where
  "read_float s a = (case lookup s a of Some (FloatTensor t) \<Rightarrow> Some t | _ \<Rightarrow> None)"

definition read_long :: "store \<Rightarrow> nat \<Rightarrow> long list option" where
  "read_long s a = (case lookup s a of Some (LongTensor t) \<Rightarrow> Some t | _ \<Rightarrow> None)"

definition rows :: "store \<Rightarrow> nat \<Rightarrow> box list" where
  "rows s a = (case read_float s a of Some t \<Rightarrow> t | None \<Rightarrow> [])"

definition column :: "nat \<Rightarrow> box \<Rightarrow> real" where
  "column k b = (case b of (c0, c1, c2, c3) \<Rightarrow>
     if k = 0 then c0 else if k = 1 then c1 else if k = 2 then c2 else c3)"

definition set_column :: "nat \<Rightarrow> real \<Rightarrow> box \<Rightarrow> box" where
  "set_column k v b = (case b of (c0, c1, c2, c3) \<Rightarrow>
     if k = 0 then (v, c1, c2, c3) else if k = 1 then (c0, v, c2, c3)
     else if k = 2 then (c0, c1, v, c3) else (c0, c1, c2, v))"

definition assign_column :: "nat \<Rightarrow> nat \<Rightarrow> real list \<Rightarrow> store \<Rightarrow> store" where
  "assign_column a k vals s =
     (case lookup s a of
        Some (FloatTensor t) \<Rightarrow> s[a := FloatTensor (map2 (set_column k) vals t)]
      | _ \<Rightarrow> s)"

definition assign_masked :: "nat \<Rightarrow> bool list \<Rightarrow> long \<Rightarrow> store \<Rightarrow> store" where
  "assign_masked a msk v s =
     (case lookup s a of
        Some (LongTensor t) \<Rightarrow> s[a := LongTensor (masked_fill t msk v)]
      | _ \<Rightarrow> s)"

definition clone :: "nat \<Rightarrow> store \<Rightarrow> (nat \<times> store) option" where
  "clone a s = (case lookup s a of Some t \<Rightarrow> Some (alloc t s) | None \<Rightarrow> None)"

definition convert_bbox_center_xywh_tensor_to_xyxy_st :: "nat \<Rightarrow> store \<Rightarrow> (error + nat) \<times> store" where
  "convert_bbox_center_xywh_tensor_to_xyxy_st bbox_center_xywh_tensor s =
     (case read_float s bbox_center_xywh_tensor of
        None \<Rightarrow> (Inl RuntimeError, s)
      | Some t \<Rightarrow>
          (case clone bbox_center_xywh_tensor s of
             None \<Rightarrow> (Inl RuntimeError, s)
           | Some (bbox_xyxy_tensor, s0) \<Rightarrow>
               let s1 = assign_column bbox_xyxy_tensor 0
                          (map (\<lambda>r. column 0 r - column 2 r * 0.5) (rows s0 bbox_center_xywh_tensor)) s0;
                   s2 = assign_column bbox_xyxy_tensor 1
                          (map (\<lambda>r. column 1 r - column 3 r * 0.5) (rows s1 bbox_center_xywh_tensor)) s1;
                   s3 = assign_column bbox_xyxy_tensor 2
                          (map (\<lambda>r. column 0 r + column 2 r * 0.5) (rows s2 bbox_center_xywh_tensor)) s2;
                   s4 = assign_column bbox_xyxy_tensor 3
                          (map (\<lambda>r. column 1 r + column 3 r * 0.5) (rows s3 bbox_center_xywh_tensor)) s3
               in (Inr bbox_xyxy_tensor, s4)))"

definition encode_st :: "nat \<Rightarrow> nat \<Rightarrow> nat \<Rightarrow> store \<Rightarrow> (error + nat \<times> nat) \<times> store" where
  "encode_st anchor_boxes_ref ground_truth_boxes_center_xywh ground_truth_labels s =
     (let anchor_boxes_center_xywh = anchor_boxes_ref
      in case convert_bbox_center_xywh_tensor_to_xyxy_st anchor_boxes_center_xywh s of
           (Inl e, s1) \<Rightarrow> (Inl e, s1)
         | (Inr anchor_boxes_xyxy, s1) \<Rightarrow>
      (case convert_bbox_center_xywh_tensor_to_xyxy_st ground_truth_boxes_center_xywh s1 of
           (Inl e, s2) \<Rightarrow> (Inl e, s2)
         | (Inr ground_truth_boxes_xyxy, s2) \<Rightarrow>
      (let ious = compute_bboxes_ious (rows s2 anchor_boxes_xyxy) (rows s2 ground_truth_boxes_xyxy)
       in case tensor_max_dim1 (length (rows s2 ground_truth_boxes_center_xywh)) ious of
            Inl e \<Rightarrow> (Inl e, s2)
          | Inr best \<Rightarrow>
      (let anchor_boxes_best_groundtruth_match_ious = map fst best;
           anchor_boxes_best_groundtruth_match_ids = map snd best
       in case index_select (rows s2 ground_truth_boxes_center_xywh)
                 anchor_boxes_best_groundtruth_match_ids of
            Inl e \<Rightarrow> (Inl e, s2)
          | Inr groundtruth_boxes_center_xywh_best_match_anchorwise \<Rightarrow>
      (let delta_xy =
             map2 (\<lambda>(gx, gy, gw, gh) (ax, ay, aw, ah). (fdiv (gx - ax) aw, fdiv (gy - ay) ah))
               groundtruth_boxes_center_xywh_best_match_anchorwise
               (rows s2 anchor_boxes_center_xywh);
           delta_wh =
             map2 (\<lambda>(gx, gy, gw, gh) (ax, ay, aw, ah). (flog (fdiv gw aw), flog (fdiv gh ah)))
               groundtruth_boxes_center_xywh_best_match_anchorwise
               (rows s2 anchor_boxes_center_xywh)
       in case alloc (DeltaTensor (map2 (\<lambda>(dx, dy) (dw, dh). (dx, dy, dw, dh)) delta_xy delta_wh)) s2 of
            (target_deltas, s3) \<Rightarrow>
      (case read_long s3 ground_truth_labels of
            None \<Rightarrow> (Inl RuntimeError, s3)
          | Some labels \<Rightarrow>
      (case index_select labels anchor_boxes_best_groundtruth_match_ids of
            Inl e \<Rightarrow> (Inl e, s3)
          | Inr matched_labels \<Rightarrow>
      (case alloc (LongTensor (map (\<lambda>l. l + 1) matched_labels)) s3 of
            (target_labels, s4) \<Rightarrow>
      (let s5 = assign_masked target_labels
                  (map (\<lambda>v. v < 0.5) anchor_boxes_best_groundtruth_match_ious) 0 s4;
           ignore =
             map2 (\<lambda>a b. a \<and> b)
               (map (\<lambda>v. 0.4 < v) anchor_boxes_best_groundtruth_match_ious)
               (map (\<lambda>v. v < 0.5) anchor_boxes_best_groundtruth_match_ious);
           s6 = assign_masked target_labels ignore (- 1) s5
       in (Inr (target_deltas, target_labels), s6))))))))))"

section \<open>Properties\<close>

subsection \<open>Box format round trips\<close>

text \<open>
  C7. Converting a tensor of boxes from topleft_xywh to center_xywh and back gives the
  tensor itself, and so does converting from center_xywh to topleft_xywh and back. In the
  exact arithmetic of the model this holds for every tensor, whatever the signs of the
  widths and heights.
\<close>

theorem convert_topleft_center_roundtrip:
  "convert_bbox_center_xywh_tensor_to_topleft_xywh
     (convert_bbox_topleft_xywh_tensor_to_center_xywh t) = t
   \<and> convert_bbox_topleft_xywh_tensor_to_center_xywh
       (convert_bbox_center_xywh_tensor_to_topleft_xywh t) = t"
proof -
  have "(\<lambda>b. case (case b of (x0, y0, w, h) \<Rightarrow> (x0 + w * 0.5, y0 + h * 0.5, w, h)) of
               (cx, cy, w, h) \<Rightarrow> (cx - w * 0.5, cy - h * 0.5, w, h)) = (\<lambda>b::box. b)"
    by (rule ext) (simp split: prod.split)
  moreover
  have "(\<lambda>b. case (case b of (cx, cy, w, h) \<Rightarrow> (cx - w * 0.5, cy - h * 0.5, w, h)) of
               (x0, y0, w, h) \<Rightarrow> (x0 + w * 0.5, y0 + h * 0.5, w, h)) = (\<lambda>b::box. b)"
    by (rule ext) (simp split: prod.split)
  ultimately show ?thesis
    by (simp add: convert_bbox_center_xywh_tensor_to_topleft_xywh_def
        convert_bbox_topleft_xywh_tensor_to_center_xywh_def comp_def)
qed

subsection \<open>Intersection over union of every pair\<close>

lemma compute_bboxes_ious_shape:
  "length (compute_bboxes_ious A B) = length A \<and>
   (\<forall>row \<in> set (compute_bboxes_ious A B). length row = length B)"
  by (auto simp: compute_bboxes_ious_def Let_def set_zip split: prod.splits)

text \<open>
  C5. For boxes \<open>A ! i = (ax0, ay0, ax1, ay1)\<close> and \<open>B ! j = (bx0, by0, bx1, by1)\<close> in
  xyxy format, entry (i, j) of \<open>compute_bboxes_ious A B\<close> is the intersection area over
  the union area, where the intersection area is the product of the overlaps along x and
  along y, each clamped to zero from below, and the union area is the sum of the two box
  areas minus the intersection area. When the union area is 0 the quotient is not a
  finite float.
\<close>

theorem compute_bboxes_ious_entry:
  assumes "i < length A" and "j < length B"
    and "A ! i = (ax0, ay0, ax1, ay1)" and "B ! j = (bx0, by0, bx1, by1)"
  shows "compute_bboxes_ious A B ! i ! j =
     (let inter = max 0 (min ax1 bx1 - max ax0 bx0) * max 0 (min ay1 by1 - max ay0 by0);
          union = (ax1 - ax0) * (ay1 - ay0) + (bx1 - bx0) * (by1 - by0) - inter
      in if union = 0 then None else Some (inter / union))"
  using assms
  by (simp add: compute_bboxes_ious_def Let_def fdiv_def clamp_min_def box_area_xyxy_def)

theorem compute_bboxes_ious_entry_witness:
  "0 < length [(0, 0, 2, 2) :: box] \<and> 0 < length [(1, 1, 3, 3) :: box]
   \<and> compute_bboxes_ious [(0, 0, 2, 2)] [(1, 1, 3, 3)] ! 0 ! 0 = Some (1 / 7)"
  using compute_bboxes_ious_entry [of 0 "[(0, 0, 2, 2)]" 0 "[(1, 1, 3, 3)]" 0 0 2 2 1 1 3 3]
  by (simp add: Let_def)

subsection \<open>The maximum along the ground-truth axis\<close>

lemma those_eq_Some: "those row = Some vs \<longleftrightarrow> row = map Some vs"
proof (induction row arbitrary: vs)
  case Nil
  then show ?case by auto
next
  case (Cons r row)
  then show ?case by (cases r) (auto simp: map_eq_Cons_conv)
qed

lemma those_all_Some: "list_all (\<lambda>v. v \<noteq> None) row \<Longrightarrow> \<exists>vs. those row = Some vs"
  by (induction row) auto

lemma collect_eq_Inr:
  "collect rs = Inr vs \<longleftrightarrow> rs = map Inr vs"
proof (induction rs arbitrary: vs)
  case Nil
  then show ?case by auto
next
  case (Cons r rs)
  show ?case
  proof (cases r)
    case (Inl e)
    then show ?thesis by (auto simp: map_eq_Cons_conv)
  next
    case (Inr z)
    show ?thesis
    proof (cases "collect rs")
      case (Inl e)
      have "rs \<noteq> map Inr zs" for zs
        using Cons.IH [of zs] Inl by simp
      with Inl Inr show ?thesis by (auto simp: map_eq_Cons_conv)
    next
      case inr: (Inr zs)
      with Cons.IH [of zs] have "rs = map Inr zs" by simp
      with inr Inr show ?thesis by (auto simp: map_eq_Cons_conv inj_on_def)
    qed
  qed
qed

lemma max_scan_spec:
  assumes "max_scan m bi i vs = (v, j)"
    and "i = length pre" and "bi < i" and "pre ! bi = m"
    and "\<forall>k<i. pre ! k \<le> m" and "\<forall>k<bi. pre ! k < m"
  shows "j < length (pre @ vs) \<and> (pre @ vs) ! j = v
         \<and> (\<forall>k<length (pre @ vs). (pre @ vs) ! k \<le> v) \<and> (\<forall>k<j. (pre @ vs) ! k < v)"
  using assms
proof (induction vs arbitrary: m bi i pre)
  case Nil
  then show ?case by auto
next
  case (Cons x xs)
  show ?case
  proof (cases "m < x")
    case True
    with Cons.prems have run: "max_scan x i (Suc i) xs = (v, j)" by simp
    have "j < length ((pre @ [x]) @ xs) \<and> ((pre @ [x]) @ xs) ! j = v
         \<and> (\<forall>k<length ((pre @ [x]) @ xs). ((pre @ [x]) @ xs) ! k \<le> v) \<and> (\<forall>k<j. ((pre @ [x]) @ xs) ! k < v)"
    proof (rule Cons.IH [OF run])
      show "Suc i = length (pre @ [x])" using Cons.prems by simp
      show "i < Suc i" by simp
      show "(pre @ [x]) ! i = x" using Cons.prems by simp
      show "\<forall>k<Suc i. (pre @ [x]) ! k \<le> x"
        using Cons.prems True by (auto simp: nth_append less_Suc_eq intro: less_imp_le order_trans)
      show "\<forall>k<i. (pre @ [x]) ! k < x"
        using Cons.prems True by (auto simp: nth_append intro: le_less_trans)
    qed
    then show ?thesis by simp
  next
    case False
    with Cons.prems have run: "max_scan m bi (Suc i) xs = (v, j)" by simp
    have "j < length ((pre @ [x]) @ xs) \<and> ((pre @ [x]) @ xs) ! j = v
         \<and> (\<forall>k<length ((pre @ [x]) @ xs). ((pre @ [x]) @ xs) ! k \<le> v) \<and> (\<forall>k<j. ((pre @ [x]) @ xs) ! k < v)"
    proof (rule Cons.IH [OF run])
      show "Suc i = length (pre @ [x])" using Cons.prems by simp
      show "bi < Suc i" using Cons.prems by simp
      show "(pre @ [x]) ! bi = m" using Cons.prems by (simp add: nth_append)
      show "\<forall>k<Suc i. (pre @ [x]) ! k \<le> m"
        using Cons.prems False by (auto simp: nth_append less_Suc_eq)
      show "\<forall>k<bi. (pre @ [x]) ! k < m"
        using Cons.prems by (auto simp: nth_append)
    qed
    then show ?thesis by simp
  qed
qed

lemma row_max_spec:
  assumes "row_max row = Inr (v, j)"
  shows "j < length row \<and> row ! j = Some v
         \<and> (\<forall>k<length row. \<exists>u. row ! k = Some u \<and> u \<le> v)
         \<and> (\<forall>k<j. \<exists>u. row ! k = Some u \<and> u < v)"
proof -
  from assms obtain x xs where row: "row = map Some ([x] @ xs)" and run: "max_scan x 0 1 xs = (v, j)"
    by (auto simp: row_max_def those_eq_Some split: option.splits list.splits)
  define ys where "ys = [x] @ xs"
  have "j < length ([x] @ xs) \<and> ([x] @ xs) ! j = v
         \<and> (\<forall>k<length ([x] @ xs). ([x] @ xs) ! k \<le> v) \<and> (\<forall>k<j. ([x] @ xs) ! k < v)"
    by (rule max_scan_spec [OF run]) auto
  then have "j < length ys \<and> ys ! j = v \<and> (\<forall>k<length ys. ys ! k \<le> v) \<and> (\<forall>k<j. ys ! k < v)"
    unfolding ys_def .
  moreover have "row = map Some ys" using row unfolding ys_def .
  ultimately show ?thesis by auto
qed

lemma row_max_total:
  assumes "row \<noteq> []" and "list_all (\<lambda>v. v \<noteq> None) row"
  shows "\<exists>v j. row_max row = Inr (v, j)"
proof -
  from those_all_Some [OF assms(2)] obtain vs where vs: "those row = Some vs" by blast
  with assms(1) have "vs \<noteq> []" by (auto simp: those_eq_Some)
  then obtain x xs where "vs = x # xs" by (cases vs) auto
  with vs show ?thesis by (cases "max_scan x 0 1 xs") (simp add: row_max_def)
qed

subsection \<open>The result of the matching stage and of encode\<close>

lemma map_Inr_total:
  "(\<forall>x\<in>set xs. \<exists>v. f x = Inr v) \<Longrightarrow> \<exists>vs. map f xs = map Inr vs"
proof (induction xs)
  case Nil
  then show ?case by simp
next
  case (Cons x xs)
  then obtain v vs where "f x = Inr v" and "map f xs = map Inr vs" by auto
  then have "map f (x # xs) = map Inr (v # vs)" by simp
  then show ?case by blast
qed

lemma best_groundtruth_match_spec:
  assumes "best_groundtruth_match self gts = Inr best"
  shows "gts \<noteq> [] \<and> length best = length (anchor_boxes self)
     \<and> (\<forall>i<length (anchor_boxes self).
          row_max (anchor_groundtruth_ious self gts ! i) = Inr (best ! i))"
proof -
  let ?ious = "anchor_groundtruth_ious self gts"
  from assms have ne: "gts \<noteq> []" and c: "collect (map row_max ?ious) = Inr best"
    by (auto simp: best_groundtruth_match_def tensor_max_dim1_def Let_def split: if_splits)
  from c have m: "map row_max ?ious = map Inr best" by (simp add: collect_eq_Inr)
  have len: "length ?ious = length (anchor_boxes self)"
    using compute_bboxes_ious_shape [of "convert_bbox_center_xywh_tensor_to_xyxy (anchor_boxes self)"]
    by (simp add: anchor_groundtruth_ious_def convert_bbox_center_xywh_tensor_to_xyxy_def)
  from m have l: "length ?ious = length best" by (metis length_map)
  have "row_max (?ious ! i) = Inr (best ! i)" if "i < length (anchor_boxes self)" for i
  proof -
    have "map row_max ?ious ! i = map Inr best ! i" using m by simp
    then show ?thesis using that len l by simp
  qed
  with ne len l show ?thesis by simp
qed

lemma best_groundtruth_match_total:
  assumes "gts \<noteq> []"
    and "all_finite (anchor_groundtruth_ious self gts)"
  shows "\<exists>best. best_groundtruth_match self gts = Inr best"
proof -
  let ?ious = "anchor_groundtruth_ious self gts"
  have "\<exists>p. row_max row = Inr p" if "row \<in> set ?ious" for row
  proof -
    have "length row = length gts"
      using compute_bboxes_ious_shape [of "convert_bbox_center_xywh_tensor_to_xyxy (anchor_boxes self)"
          "convert_bbox_center_xywh_tensor_to_xyxy gts"] that
      by (simp add: anchor_groundtruth_ious_def convert_bbox_center_xywh_tensor_to_xyxy_def)
    with assms(1) have "row \<noteq> []" by auto
    moreover have "list_all (\<lambda>v. v \<noteq> None) row"
      using assms(2) that unfolding all_finite_def list_all_iff by blast
    ultimately show ?thesis using row_max_total [of row] by auto
  qed
  then obtain best where "map row_max ?ious = map Inr best"
    using map_Inr_total [of ?ious row_max] by blast
  then have "collect (map row_max ?ious) = Inr best" by (simp add: collect_eq_Inr)
  with assms(1) show ?thesis
    by (simp add: best_groundtruth_match_def tensor_max_dim1_def Let_def)
qed


lemma encode_result:
  assumes "best_groundtruth_match self gts = Inr best"
    and "\<forall>p\<in>set best. snd p < length gts"
    and "\<forall>p\<in>set best. snd p < length labels"
    and "length best = length (anchor_boxes self)"
  shows "encode self gts labels =
     Inr (map2 (\<lambda>p a. case gts ! snd p of (gx, gy, gw, gh) \<Rightarrow> case a of (ax, ay, aw, ah) \<Rightarrow>
                  (fdiv (gx - ax) aw, fdiv (gy - ay) ah, flog (fdiv gw aw), flog (fdiv gh ah)))
            best (anchor_boxes self),
          map (\<lambda>p. if 0.4 < fst p \<and> fst p < 0.5 then - 1
                    else if fst p < 0.5 then 0 else labels ! snd p + 1) best)"
proof -
  have "list_all (\<lambda>i. i < length gts) (map snd best)"
    and "list_all (\<lambda>i. i < length labels) (map snd best)"
    using assms(2,3) by (auto simp: list_all_iff)
  then show ?thesis using assms(1,4)
    by (auto simp: encode_def Let_def index_select_def masked_fill_def
        list_eq_iff_nth_eq split: prod.splits)
qed

lemma best_match_in_range:
  assumes "best_groundtruth_match self gts = Inr best"
  shows "\<forall>p\<in>set best. snd p < length gts"
proof
  fix p assume "p \<in> set best"
  then obtain i where i: "i < length best" and p: "p = best ! i"
    by (auto simp: in_set_conv_nth)
  from best_groundtruth_match_spec [OF assms] i
  have len: "i < length (anchor_boxes self)"
    and rm: "row_max (anchor_groundtruth_ious self gts ! i) = Inr (fst p, snd p)"
    by (simp_all add: p)
  have "length (anchor_groundtruth_ious self gts ! i) = length gts"
    using compute_bboxes_ious_shape [of "convert_bbox_center_xywh_tensor_to_xyxy (anchor_boxes self)"
          "convert_bbox_center_xywh_tensor_to_xyxy gts"] len
    by (simp add: anchor_groundtruth_ious_def convert_bbox_center_xywh_tensor_to_xyxy_def)
  with row_max_spec [OF rm] show "snd p < length gts" by simp
qed

lemma encode_total:
  assumes "gts \<noteq> []" and "all_finite (anchor_groundtruth_ious self gts)"
    and "length gts \<le> length labels"
  obtains best where "best_groundtruth_match self gts = Inr best"
    and "length best = length (anchor_boxes self)"
    and "\<forall>p\<in>set best. snd p < length gts"
    and "encode self gts labels =
     Inr (map2 (\<lambda>p a. case gts ! snd p of (gx, gy, gw, gh) \<Rightarrow> case a of (ax, ay, aw, ah) \<Rightarrow>
                  (fdiv (gx - ax) aw, fdiv (gy - ay) ah, flog (fdiv gw aw), flog (fdiv gh ah)))
            best (anchor_boxes self),
          map (\<lambda>p. if 0.4 < fst p \<and> fst p < 0.5 then - 1
                    else if fst p < 0.5 then 0 else labels ! snd p + 1) best)"
proof -
  from best_groundtruth_match_total [OF assms(1,2)]
  obtain best where b: "best_groundtruth_match self gts = Inr best" by blast
  have r: "\<forall>p\<in>set best. snd p < length gts" by (rule best_match_in_range [OF b])
  with assms(3) have r': "\<forall>p\<in>set best. snd p < length labels" by auto
  have l: "length best = length (anchor_boxes self)"
    using best_groundtruth_match_spec [OF b] by simp
  from that [OF b l r encode_result [OF b r r' l]] show thesis .
qed

lemmas eval_defs = all_finite_def anchor_groundtruth_ious_def
  convert_bbox_center_xywh_tensor_to_xyxy_def compute_bboxes_ious_def Let_def fdiv_def
  clamp_min_def box_area_xyxy_def

subsection \<open>Matching: the first maximum of every row\<close>

text \<open>
  C6. In an encode call with at least one ground-truth box and an IoU matrix of finite
  entries, the matching stage returns for every anchor box i a pair (best_iou, best_j)
  such that best_j is an index of a ground-truth box, entry best_j of row i of the IoU
  matrix is best_iou, no entry of the row is greater than best_iou, and every entry before
  best_j is strictly smaller: best_iou is the maximum of the row and best_j is the first
  index that attains it.
\<close>

theorem best_match_first_maximum:
  assumes "gts \<noteq> []" and "all_finite (anchor_groundtruth_ious self gts)"
  shows "\<exists>best. best_groundtruth_match self gts = Inr best
     \<and> length best = length (anchor_boxes self)
     \<and> (\<forall>i<length (anchor_boxes self).
          let row = anchor_groundtruth_ious self gts ! i;
              best_iou = fst (best ! i); best_j = snd (best ! i)
          in length row = length gts \<and> best_j < length gts \<and> row ! best_j = Some best_iou
             \<and> (\<forall>j<length gts. \<exists>u. row ! j = Some u \<and> u \<le> best_iou)
             \<and> (\<forall>j<best_j. \<exists>u. row ! j = Some u \<and> u < best_iou))"
proof -
  from best_groundtruth_match_total [OF assms]
  obtain best where b: "best_groundtruth_match self gts = Inr best" by blast
  note spec = best_groundtruth_match_spec [OF b]
  have "length (anchor_groundtruth_ious self gts ! i) = length gts
        \<and> snd (best ! i) < length gts
        \<and> anchor_groundtruth_ious self gts ! i ! snd (best ! i) = Some (fst (best ! i))
        \<and> (\<forall>j<length gts. \<exists>u. anchor_groundtruth_ious self gts ! i ! j = Some u \<and> u \<le> fst (best ! i))
        \<and> (\<forall>j. j < snd (best ! i) \<longrightarrow> (\<exists>u. anchor_groundtruth_ious self gts ! i ! j = Some u \<and> u < fst (best ! i)))"
    if i: "i < length (anchor_boxes self)" for i
  proof -
    have rm: "row_max (anchor_groundtruth_ious self gts ! i) = Inr (fst (best ! i), snd (best ! i))"
      using spec i by simp
    have len: "length (anchor_groundtruth_ious self gts ! i) = length gts"
      using compute_bboxes_ious_shape [of "convert_bbox_center_xywh_tensor_to_xyxy (anchor_boxes self)"
          "convert_bbox_center_xywh_tensor_to_xyxy gts"] i
      by (simp add: anchor_groundtruth_ious_def convert_bbox_center_xywh_tensor_to_xyxy_def)
    from row_max_spec [OF rm] len show ?thesis by simp
  qed
  with b spec show ?thesis by (auto simp: Let_def)
qed

theorem best_match_first_maximum_witness:
  "[(8, 8, 10, 10), (8, 8, 10, 10)] \<noteq> ([] :: box list)
   \<and> all_finite (anchor_groundtruth_ious
        \<lparr>input_image_size = (16, 16), anchor_areas = [100], aspect_ratios = [1], stride = 16,
         anchor_boxes = [(8, 8, 10, 10)]\<rparr> [(8, 8, 10, 10), (8, 8, 10, 10)])
   \<and> best_groundtruth_match
        \<lparr>input_image_size = (16, 16), anchor_areas = [100], aspect_ratios = [1], stride = 16,
         anchor_boxes = [(8, 8, 10, 10)]\<rparr> [(8, 8, 10, 10), (8, 8, 10, 10)] = Inr [(1, 0)]"
proof -
  let ?m = "\<lparr>input_image_size = (16, 16), anchor_areas = [100], aspect_ratios = [1], stride = 16,
         anchor_boxes = [(8, 8, 10, 10)]\<rparr>"
  let ?g = "[(8, 8, 10, 10), (8, 8, 10, 10)] :: box list"
  have h1: "?g \<noteq> []" by simp
  have rows: "anchor_groundtruth_ious ?m ?g = [[Some 1, Some 1]]"
    by (simp add: eval_defs)
  have h2: "all_finite (anchor_groundtruth_ious ?m ?g)"
    by (simp add: rows all_finite_def)
  from best_match_first_maximum [OF h1 h2] obtain best where
    b: "best_groundtruth_match ?m ?g = Inr best" and l: "length best = 1"
    and p: "[Some 1, Some 1] ! snd (best ! 0) = Some (fst (best ! 0))"
    and q: "\<forall>j. j < snd (best ! 0) \<longrightarrow> (\<exists>u. [Some 1, Some (1::real)] ! j = Some u \<and> u < fst (best ! 0))"
    and r: "snd (best ! 0) < 2"
    by (auto simp: Let_def rows)
  from r have "snd (best ! 0) = 0 \<or> snd (best ! 0) = 1" by auto
  then have "snd (best ! 0) = 0"
  proof
    assume "snd (best ! 0) = 1"
    with p q show ?thesis by auto
  qed simp
  with p have "best ! 0 = (1, 0)" by (cases "best ! 0") simp
  with l have "best = [(1, 0)]" by (cases best) auto
  with b h1 h2 show ?thesis by simp
qed

subsection \<open>Classification targets\<close>

text \<open>
  C1. In an encode call with at least one ground-truth box (an IoU matrix of finite
  entries, and a label for every ground-truth box), encode returns, and the target label
  of every anchor box i is -1 when 0.4 < best_iou < 0.5, otherwise 0 when best_iou < 0.5,
  otherwise the label of the matched ground-truth box plus one. In particular it is 0 at
  best_iou = 0.3, -1 at 0.45 and the matched label plus one at 0.6.
\<close>

theorem encode_target_labels:
  assumes "gts \<noteq> []" and "all_finite (anchor_groundtruth_ious self gts)"
    and "length gts \<le> length labels"
  shows "\<exists>best target_deltas target_labels.
      best_groundtruth_match self gts = Inr best
    \<and> encode self gts labels = Inr (target_deltas, target_labels)
    \<and> length best = length (anchor_boxes self)
    \<and> length target_labels = length (anchor_boxes self)
    \<and> (\<forall>i<length (anchor_boxes self).
         let best_iou = fst (best ! i); best_j = snd (best ! i)
         in best_j < length gts
          \<and> target_labels ! i =
               (if 0.4 < best_iou \<and> best_iou < 0.5 then - 1
                else if best_iou < 0.5 then 0 else labels ! best_j + 1)
          \<and> (best_iou = 0.3 \<longrightarrow> target_labels ! i = 0)
          \<and> (best_iou = 0.45 \<longrightarrow> target_labels ! i = - 1)
          \<and> (best_iou = 0.6 \<longrightarrow> target_labels ! i = labels ! best_j + 1))"
proof -
  from encode_total [OF assms] obtain best where
    b: "best_groundtruth_match self gts = Inr best"
    and l: "length best = length (anchor_boxes self)"
    and r: "\<forall>p\<in>set best. snd p < length gts"
    and e: "encode self gts labels =
     Inr (map2 (\<lambda>p a. case gts ! snd p of (gx, gy, gw, gh) \<Rightarrow> case a of (ax, ay, aw, ah) \<Rightarrow>
                  (fdiv (gx - ax) aw, fdiv (gy - ay) ah, flog (fdiv gw aw), flog (fdiv gh ah)))
            best (anchor_boxes self),
          map (\<lambda>p. if 0.4 < fst p \<and> fst p < 0.5 then - 1
                    else if fst p < 0.5 then 0 else labels ! snd p + 1) best)"
    by blast
  show ?thesis
    apply (rule exI [of _ best])
    apply (intro exI conjI)
        apply (rule b)
       apply (rule e)
      apply (rule l)
     apply (simp add: l)
    using r l apply (auto simp: Let_def)
    done
qed

theorem encode_target_labels_witness:
  "[(0, 0, 10, 10)] \<noteq> ([] :: box list)
   \<and> all_finite (anchor_groundtruth_ious
        \<lparr>input_image_size = (16, 16), anchor_areas = [30, 45, 60], aspect_ratios = [1], stride = 16,
         anchor_boxes = [(0, 0, 3, 10), (0, 0, 4.5, 10), (0, 0, 6, 10)]\<rparr> [(0, 0, 10, 10)])
   \<and> length [(0, 0, 10, 10) :: box] \<le> length [7 :: long]
   \<and> (\<exists>target_deltas. encode
        \<lparr>input_image_size = (16, 16), anchor_areas = [30, 45, 60], aspect_ratios = [1], stride = 16,
         anchor_boxes = [(0, 0, 3, 10), (0, 0, 4.5, 10), (0, 0, 6, 10)]\<rparr> [(0, 0, 10, 10)] [7]
        = Inr (target_deltas, [0, - 1, 8]))"
proof -
  let ?m = "\<lparr>input_image_size = (16, 16), anchor_areas = [30, 45, 60], aspect_ratios = [1], stride = 16,
         anchor_boxes = [(0, 0, 3, 10), (0, 0, 4.5, 10), (0, 0, 6, 10)]\<rparr>"
  let ?g = "[(0, 0, 10, 10)] :: box list"
  have h1: "?g \<noteq> []" by simp
  have rows: "anchor_groundtruth_ious ?m ?g = [[Some 0.3], [Some 0.45], [Some 0.6]]"
    by (simp add: eval_defs)
  have h2: "all_finite (anchor_groundtruth_ious ?m ?g)"
    by (simp only: rows) (simp add: all_finite_def del: not_None_eq)
  have h3: "length ?g \<le> length [7 :: long]" by simp
  have bm: "best_groundtruth_match ?m ?g = Inr [(0.3, 0), (0.45, 0), (0.6, 0)]"
    by (simp only: best_groundtruth_match_def Let_def rows) (simp add: tensor_max_dim1_def row_max_def)
  from encode_target_labels [OF h1 h2 h3] obtain best target_deltas target_labels where
    b: "best_groundtruth_match ?m ?g = Inr best"
    and e: "encode ?m ?g [7] = Inr (target_deltas, target_labels)"
    and l: "length target_labels = 3"
    and t: "\<forall>i<3. target_labels ! i =
               (if 0.4 < fst (best ! i) \<and> fst (best ! i) < 0.5 then - 1
                else if fst (best ! i) < 0.5 then 0 else [7] ! snd (best ! i) + 1)"
    by (auto simp: Let_def)
  from b bm have best: "best = [(0.3, 0), (0.45, 0), (0.6, 0)]" by simp
  have "target_labels ! 0 = 0" and "target_labels ! 1 = - 1" and "target_labels ! 2 = 8"
    using t by (simp_all add: best)
  with l have "target_labels = [0, - 1, 8]"
    by (simp add: list_eq_iff_nth_eq less_Suc_eq numeral_3_eq_3 numeral_2_eq_2)
  with e h1 h2 h3 show ?thesis by blast
qed

subsection \<open>Regression targets\<close>

text \<open>
  C2. In an encode call with at least one ground-truth box (an IoU matrix of finite
  entries, and a label for every ground-truth box), encode returns, and the regression
  target of every anchor box (ax, ay, aw, ah) matched to the ground-truth box
  (gx, gy, gw, gh) is ((gx - ax) / aw, (gy - ay) / ah, ln (gw / aw), ln (gh / ah)),
  each component being a finite float exactly when its divisor is not 0 and the argument
  of its logarithm is positive. When the anchor box equals its matched ground-truth box
  and has a width and a height other than 0, the target is (0, 0, 0, 0).
\<close>

theorem encode_target_deltas:
  assumes "gts \<noteq> []" and "all_finite (anchor_groundtruth_ious self gts)"
    and "length gts \<le> length labels"
  shows "\<exists>best target_deltas target_labels.
      best_groundtruth_match self gts = Inr best
    \<and> encode self gts labels = Inr (target_deltas, target_labels)
    \<and> length best = length (anchor_boxes self)
    \<and> length target_deltas = length (anchor_boxes self)
    \<and> (\<forall>i<length (anchor_boxes self).
         snd (best ! i) < length gts \<and>
         (case anchor_boxes self ! i of (ax, ay, aw, ah) \<Rightarrow>
          case gts ! snd (best ! i) of (gx, gy, gw, gh) \<Rightarrow>
            target_deltas ! i =
              (fdiv (gx - ax) aw, fdiv (gy - ay) ah, flog (fdiv gw aw), flog (fdiv gh ah))
          \<and> (aw \<noteq> 0 \<and> ah \<noteq> 0 \<and> 0 < gw / aw \<and> 0 < gh / ah \<longrightarrow>
               target_deltas ! i =
                 (Some ((gx - ax) / aw), Some ((gy - ay) / ah),
                  Some (ln (gw / aw)), Some (ln (gh / ah))))
          \<and> ((gx, gy, gw, gh) = (ax, ay, aw, ah) \<and> aw \<noteq> 0 \<and> ah \<noteq> 0 \<longrightarrow>
               target_deltas ! i = (Some 0, Some 0, Some 0, Some 0))))"
proof -
  from encode_total [OF assms] obtain best where
    b: "best_groundtruth_match self gts = Inr best"
    and l: "length best = length (anchor_boxes self)"
    and r: "\<forall>p\<in>set best. snd p < length gts"
    and e: "encode self gts labels =
     Inr (map2 (\<lambda>p a. case gts ! snd p of (gx, gy, gw, gh) \<Rightarrow> case a of (ax, ay, aw, ah) \<Rightarrow>
                  (fdiv (gx - ax) aw, fdiv (gy - ay) ah, flog (fdiv gw aw), flog (fdiv gh ah)))
            best (anchor_boxes self),
          map (\<lambda>p. if 0.4 < fst p \<and> fst p < 0.5 then - 1
                    else if fst p < 0.5 then 0 else labels ! snd p + 1) best)"
    by blast
  show ?thesis
    apply (rule exI [of _ best])
    apply (intro exI conjI)
        apply (rule b)
       apply (rule e)
      apply (rule l)
     apply (simp add: l)
    using r l apply (auto simp: fdiv_def flog_def split: prod.splits)
    done
qed

theorem encode_target_deltas_witness:
  "[(8, 8, 10, 10)] \<noteq> ([] :: box list)
   \<and> all_finite (anchor_groundtruth_ious
        \<lparr>input_image_size = (16, 16), anchor_areas = [100], aspect_ratios = [1], stride = 16,
         anchor_boxes = [(8, 8, 10, 10)]\<rparr> [(8, 8, 10, 10)])
   \<and> length [(8, 8, 10, 10) :: box] \<le> length [7 :: long]
   \<and> (\<exists>target_labels. encode
        \<lparr>input_image_size = (16, 16), anchor_areas = [100], aspect_ratios = [1], stride = 16,
         anchor_boxes = [(8, 8, 10, 10)]\<rparr> [(8, 8, 10, 10)] [7]
        = Inr ([(Some 0, Some 0, Some 0, Some 0)], target_labels))"
proof -
  let ?m = "\<lparr>input_image_size = (16, 16), anchor_areas = [100], aspect_ratios = [1], stride = 16,
         anchor_boxes = [(8, 8, 10, 10)]\<rparr>"
  let ?g = "[(8, 8, 10, 10)] :: box list"
  have h1: "?g \<noteq> []" by simp
  have rows: "anchor_groundtruth_ious ?m ?g = [[Some 1]]"
    by (simp add: eval_defs)
  have h2: "all_finite (anchor_groundtruth_ious ?m ?g)"
    by (simp add: rows all_finite_def)
  have h3: "length ?g \<le> length [7 :: long]" by simp
  from encode_target_deltas [OF h1 h2 h3] obtain target_deltas target_labels where
    e: "encode ?m ?g [7] = Inr (target_deltas, target_labels)"
    and l: "length target_deltas = 1"
    and "target_deltas ! 0 = (Some 0, Some 0, Some 0, Some 0)"
    by (auto simp: fdiv_def flog_def)
  with l have "target_deltas = [(Some 0, Some 0, Some 0, Some 0)]"
    by (cases target_deltas) auto
  with e h1 h2 h3 show ?thesis by blast
qed

subsection \<open>Padding\<close>

text \<open>
  C9. For an image of size (iw, ih) and a target size (tw, th),
  \<open>pad_to_size_with_bounding_boxes\<close> pads and never crops. With pw = max 0 (tw - iw) and
  ph = max 0 (th - ih) the padding along each axis, the result has size
  (iw + pw, ih + ph) = (max iw tw, max ih th); every pixel of the input sits in the result
  shifted by the leading paddings \<open>pw div 2\<close> and \<open>ph div 2\<close> (so the trailing paddings
  are the remainders), every other pixel holds the fill value; and every bounding box keeps
  its width and height while its x center moves by the leading horizontal padding and its
  y center by the leading vertical padding.
\<close>

theorem pad_to_size_with_bounding_boxes_pads:
  fixes input_img :: "'p image"
  assumes "img_size input_img = (iw, ih)"
    and "pad_to_size_with_bounding_boxes input_img (tw, th) bboxes fill_label = (out, bboxes')"
    and "pw = max 0 (tw - iw)" and "ph = max 0 (th - ih)"
  shows "img_size out = (pw div 2 + iw + (pw - pw div 2), ph div 2 + ih + (ph - ph div 2))
    \<and> img_size out = (max iw tw, max ih th)
    \<and> (\<forall>x y. 0 \<le> x \<and> x < iw \<and> 0 \<le> y \<and> y < ih \<longrightarrow>
          pixel out (x + pw div 2) (y + ph div 2) = pixel input_img x y)
    \<and> (\<forall>x y. \<not> (pw div 2 \<le> x \<and> x < pw div 2 + iw \<and> ph div 2 \<le> y \<and> y < ph div 2 + ih)
              \<and> (pw \<noteq> 0 \<or> ph \<noteq> 0) \<longrightarrow> pixel out x y = fill_label)
    \<and> length bboxes' = length bboxes
    \<and> (\<forall>i<length bboxes. case bboxes ! i of (cx, cy, w, h) \<Rightarrow>
          bboxes' ! i = (cx + real_of_int (pw div 2), cy + real_of_int (ph div 2), w, h))"
proof -
  have out: "out = (if (pw div 2, ph div 2, pw - pw div 2, ph - ph div 2) \<noteq> (0, 0, 0, 0)
                    then ImageOps_expand input_img (pw div 2, ph div 2, pw - pw div 2, ph - ph div 2) fill_label
                    else input_img)"
    and bb: "bboxes' = map (\<lambda>(cx, cy, w, h). (cx + real_of_int (pw div 2), cy + real_of_int (ph div 2), w, h)) bboxes"
    using assms by (auto simp: pad_to_size_with_bounding_boxes_def Let_def max_def)
  have z: "(pw div 2, ph div 2, pw - pw div 2, ph - ph div 2) = (0, 0, 0, 0) \<longleftrightarrow> pw = 0 \<and> ph = 0"
    by auto
  have nn: "0 \<le> pw" "0 \<le> ph" using assms(3,4) by simp_all
  show ?thesis
  proof (cases "pw = 0 \<and> ph = 0")
    case True
    then have "out = input_img" using out by simp
    moreover from True assms(3,4) have "tw \<le> iw" "th \<le> ih" by (simp_all add: max_def split: if_splits)
    ultimately show ?thesis using True assms(1) bb by (auto simp: max_def split: prod.splits)
  next
    case False
    then have o: "out = ImageOps_expand input_img (pw div 2, ph div 2, pw - pw div 2, ph - ph div 2) fill_label"
      using out z by auto
    have s: "img_size out = (pw div 2 + iw + (pw - pw div 2), ph div 2 + ih + (ph - ph div 2))"
      and p: "pixel out = (\<lambda>x y. if pw div 2 \<le> x \<and> x < pw div 2 + iw \<and> ph div 2 \<le> y \<and> y < ph div 2 + ih
                            then pixel input_img (x - pw div 2) (y - ph div 2) else fill_label)"
      using o assms(1) by (simp_all add: ImageOps_expand_def)
    have s2: "img_size out = (max iw tw, max ih th)"
      using s assms(3,4) by (auto simp: max_def)
    show ?thesis using s s2 bb False by (auto simp: p split: prod.splits)
  qed
qed

theorem pad_to_size_with_bounding_boxes_pads_witness:
  "img_size \<lparr>img_size = (4, 3), pixel = (\<lambda>x y. x + 10 * y)\<rparr> = (4, 3)
   \<and> pad_to_size_with_bounding_boxes \<lparr>img_size = (4, 3), pixel = (\<lambda>x y. x + 10 * y)\<rparr> (7, 2)
        [(1, 2, 3, 4)] 0
      = (ImageOps_expand \<lparr>img_size = (4, 3), pixel = (\<lambda>x y. x + 10 * y)\<rparr> (1, 0, 2, 0) 0,
         [(2, 2, 3, 4)])
   \<and> img_size (ImageOps_expand \<lparr>img_size = (4, 3), pixel = (\<lambda>x y. x + 10 * y)\<rparr> (1, 0, 2, 0) (0::int))
      = (7, 3)"
proof -
  let ?img = "\<lparr>img_size = (4, 3), pixel = (\<lambda>x y. x + 10 * y)\<rparr> :: int image"
  have h1: "img_size ?img = (4, 3)" by simp
  have h2: "pad_to_size_with_bounding_boxes ?img (7, 2) [(1, 2, 3, 4)] 0
      = (ImageOps_expand ?img (1, 0, 2, 0) 0, [(2, 2, 3, 4)])"
    by (simp add: pad_to_size_with_bounding_boxes_def Let_def)
  have h3: "(3::int) = max 0 (7 - 4)" and h4: "(0::int) = max 0 (2 - 3)" by simp_all
  from pad_to_size_with_bounding_boxes_pads [OF h1 h2 h3 h4]
  have "img_size (ImageOps_expand ?img (1, 0, 2, 0) 0) = (7, 3)" by simp
  with h1 h2 show ?thesis by simp
qed

subsection \<open>The precomputed anchor boxes\<close>

lemma sizes_over_ratios_ok:
  assumes "\<forall>r\<in>set ratios. 0 < r * a"
  shows "sizes_over_ratios a ratios acc =
           Inr (acc @ map (\<lambda>r. (sqrt (r * a), a / sqrt (r * a))) ratios)"
  using assms
proof (induction ratios arbitrary: acc)
  case Nil
  then show ?case by simp
next
  case (Cons r rs)
  then have "0 < r * a" by simp
  then have "anchor_box_size a r = Inr (sqrt (r * a), a / sqrt (r * a))"
    by (auto simp: anchor_box_size_def Let_def)
  with Cons show ?case by simp
qed

lemma sizes_over_areas_ok:
  assumes "\<forall>a\<in>set areas. \<forall>r\<in>set ratios. 0 < r * a"
  shows "sizes_over_areas areas ratios acc =
           Inr (acc @ concat (map (\<lambda>a. map (\<lambda>r. (sqrt (r * a), a / sqrt (r * a))) ratios) areas))"
  using assms
proof (induction areas arbitrary: acc)
  case Nil
  then show ?case by simp
next
  case (Cons a as)
  then have "sizes_over_ratios a ratios acc =
           Inr (acc @ map (\<lambda>r. (sqrt (r * a), a / sqrt (r * a))) ratios)"
    by (simp add: sizes_over_ratios_ok)
  with Cons show ?case by simp
qed

lemma get_anchor_boxes_sizes_ok:
  assumes "\<forall>a\<in>set (anchor_areas self). \<forall>r\<in>set (aspect_ratios self). 0 < r * a"
  shows "get_anchor_boxes_sizes self =
           Inr [map (\<lambda>(a, r). (sqrt (r * a), a / sqrt (r * a)))
                  (List.product (anchor_areas self) (aspect_ratios self))]"
  using sizes_over_areas_ok [OF assms, of "[]"]
  by (simp add: get_anchor_boxes_sizes_def product_concat_map map_concat comp_def)

lemma zip_concat_map:
  assumes "\<And>y. length (f y) = length (g y)"
  shows "zip (concat (map f ys)) (concat (map g ys)) = concat (map (\<lambda>y. zip (f y) (g y)) ys)"
  by (induction ys) (simp_all add: assms)

lemma get_anchor_boxes_center_coordinates_ok:
  assumes "stride self \<noteq> 0"
  shows "get_anchor_boxes_center_coordinates self (H, W) =
     Inr (map (\<lambda>c. [c])
       (map (\<lambda>(r, c). ((real r + 0.5) * real_of_int (stride self),
                        (real c + 0.5) * real_of_int (stride self)))
          (List.product [0..<nat \<lceil>real_of_int H / real_of_int (stride self)\<rceil>]
                        [0..<nat \<lceil>real_of_int W / real_of_int (stride self)\<rceil>])))"
proof -
  let ?fh = "nat \<lceil>real_of_int H / real_of_int (stride self)\<rceil>"
  let ?fw = "nat \<lceil>real_of_int W / real_of_int (stride self)\<rceil>"
  have z: "zip (concat (map (\<lambda>x. map (\<lambda>xa. int x) [0..<?fw]) [0..<?fh]))
               (concat (map (\<lambda>x. map int [0..<?fw]) [0..<?fh]))
           = map (\<lambda>(r, c). (int r, int c)) (List.product [0..<?fh] [0..<?fw])"
    by (subst zip_concat_map)
      (simp_all add: product_concat_map map_concat comp_def zip_map_map zip_same_conv_map)
  show ?thesis
    using assms
    by (simp add: get_anchor_boxes_center_coordinates_def
        compute_network_output_feature_map_size_def meshgrid_def flatten_def py_range_def
        Let_def comp_def split_def z)
qed

lemma precompute_anchor_boxes_ok:
  assumes "get_anchor_boxes_sizes self = Inr [sizes]"
    and "get_anchor_boxes_center_coordinates self input_size = Inr (map (\<lambda>c. [c]) centers)"
  shows "precompute_anchor_boxes self input_size =
     Inr (self\<lparr>anchor_boxes :=
            map (\<lambda>(c, s). (fst c, snd c, fst s, snd s)) (List.product centers sizes)\<rparr>)"
proof -
  have r1: "repeat_axis1 (length sizes) (map (\<lambda>c. [c]) centers) = map (replicate (length sizes)) centers"
    by (simp add: repeat_axis1_def repeat_axis0_def comp_def)
  have r0: "repeat_axis0 (length centers) [sizes] = replicate (length centers) sizes"
    by (simp add: repeat_axis0_def)
  have d: "dstack (map (replicate (length sizes)) centers) (replicate (length centers) sizes)
           = map (\<lambda>c. map (\<lambda>s. (fst c, snd c, fst s, snd s)) sizes) centers"
    by (simp add: dstack_def zip_replicate2 zip_replicate1 comp_def split_def zip_map1)
  have f: "flatten (map (\<lambda>c. map (\<lambda>s. (fst c, snd c, fst s, snd s)) sizes) centers)
           = map (\<lambda>(c, s). (fst c, snd c, fst s, snd s)) (List.product centers sizes)"
    by (simp add: flatten_def product_concat_map map_concat comp_def)
  have df: "flatten (dstack (repeat_axis1 (length sizes) (map (\<lambda>c. [c]) centers))
                            (repeat_axis0 (length centers) [sizes]))
           = map (\<lambda>(c, s). (fst c, snd c, fst s, snd s)) (List.product centers sizes)"
    by (simp only: r1 r0 d f)
  show ?thesis
    using assms by (simp add: precompute_anchor_boxes_def Let_def df)
qed

lemma init_ok:
  assumes "\<forall>a\<in>set areas. \<forall>r\<in>set ratios. 0 < r * a" and "s \<noteq> 0"
  shows "init (H, W) areas ratios s =
     Inr \<lparr>input_image_size = (H, W), anchor_areas = areas, aspect_ratios = ratios, stride = s,
          anchor_boxes =
            map (\<lambda>(c, s). (fst c, snd c, fst s, snd s))
              (List.product
                 (map (\<lambda>(r, c). ((real r + 0.5) * real_of_int s, (real c + 0.5) * real_of_int s))
                    (List.product [0..<nat \<lceil>real_of_int H / real_of_int s\<rceil>]
                                  [0..<nat \<lceil>real_of_int W / real_of_int s\<rceil>]))
                 (map (\<lambda>(a, r). (sqrt (r * a), a / sqrt (r * a))) (List.product areas ratios)))\<rparr>"
proof -
  let ?self = "\<lparr>input_image_size = (H, W), anchor_areas = areas, aspect_ratios = ratios,
                 stride = s, anchor_boxes = []\<rparr>"
  have a: "\<forall>a\<in>set (anchor_areas ?self). \<forall>r\<in>set (aspect_ratios ?self). 0 < r * a"
    using assms(1) by simp
  have b: "stride ?self \<noteq> 0" using assms(2) by simp
  show ?thesis
    unfolding init_def
    by (subst precompute_anchor_boxes_ok [OF get_anchor_boxes_sizes_ok [OF a]
          get_anchor_boxes_center_coordinates_ok [OF b]]) simp
qed





text \<open>
  C4 asks for the center ((c + 0.5) * stride, (r + 0.5) * stride) of the grid cell in row
  r and column c: x, from the column, first. The code zips the flattened row indices with
  the flattened column indices in that order, so the first stored coordinate comes from the
  row and the second from the column. For the image size (32, 32) and the stride 16 the
  cell in row 0 and column 1 (index 1 of the row-major enumeration) gets the center
  (8, 24), not (24, 8).
\<close>

theorem anchor_centers_row_coordinate_first:
  "\<exists>m. init (32, 32) [4] [1] 16 = Inr m
     \<and> anchor_boxes m = [(8, 8, 2, 2), (8, 24, 2, 2), (24, 8, 2, 2), (24, 24, 2, 2)]
     \<and> anchor_boxes m ! (0 * 2 + 1) = ((0 + 0.5) * 16, (1 + 0.5) * 16, 2, 2)
     \<and> anchor_boxes m ! (0 * 2 + 1) \<noteq> ((1 + 0.5) * 16, (0 + 0.5) * 16, 2, 2)"
proof -
  have "(\<forall>a\<in>set [4 :: real]. \<forall>r\<in>set [1 :: real]. 0 < r * a)" and "(16 :: int) \<noteq> 0"
    by simp_all
  moreover have u: "[0..<2] = [0, Suc 0]" by (simp add: numeral_2_eq_2)
  ultimately have "init (32, 32) [4] [1] 16 =
     Inr \<lparr>input_image_size = (32, 32), anchor_areas = [4], aspect_ratios = [1], stride = 16,
          anchor_boxes = [(8, 8, 2, 2), (8, 24, 2, 2), (24, 8, 2, 2), (24, 24, 2, 2)]\<rparr>"
    using init_ok [of "[4]" "[1]" 16 32 32] by (simp add: u)
  then show ?thesis by simp
qed

subsection \<open>Positive anchor sizes\<close>




subsection \<open>What encode writes\<close>

lemma read_float_SomeD:
  "read_float s a = Some t \<Longrightarrow> a < length s \<and> s ! a = FloatTensor t"
  by (auto simp: read_float_def lookup_def split: if_splits option.splits tensor.splits)

lemma read_long_SomeD:
  "read_long s a = Some t \<Longrightarrow> a < length s \<and> s ! a = LongTensor t"
  by (auto simp: read_long_def lookup_def split: if_splits option.splits tensor.splits)

lemma rows_append_old: "a < length s \<Longrightarrow> rows (s @ ext) a = rows s a"
  by (simp add: rows_def read_float_def lookup_def nth_append)

lemma rows_read: "read_float s a = Some t \<Longrightarrow> rows s a = t"
  by (simp add: rows_def)

lemma assign_column_last:
  "assign_column (length s) k vals (s @ [FloatTensor t]) =
     s @ [FloatTensor (map2 (set_column k) vals t)]"
  by (simp add: assign_column_def lookup_def)

lemma assign_masked_last:
  "assign_masked (length s) msk v (s @ [LongTensor t]) = s @ [LongTensor (masked_fill t msk v)]"
  by (simp add: assign_masked_def lookup_def)

lemma convert_st_eq:
  assumes "read_float s a = Some t"
  shows "convert_bbox_center_xywh_tensor_to_xyxy_st a s =
           (Inr (length s), s @ [FloatTensor (convert_bbox_center_xywh_tensor_to_xyxy t)])"
proof -
  from read_float_SomeD [OF assms] have a: "a < length s" and sa: "s ! a = FloatTensor t"
    by simp_all
  have c: "clone a s = Some (length s, s @ [FloatTensor t])"
    using a sa by (simp add: clone_def lookup_def alloc_def)
  have r: "rows (s @ ext) a = t" for ext
    using a assms by (simp add: rows_append_old rows_read)
  have "map2 (set_column 3) (map (\<lambda>r. column 1 r + column 3 r * 0.5) t)
         (map2 (set_column 2) (map (\<lambda>r. column 0 r + column 2 r * 0.5) t)
           (map2 (set_column 1) (map (\<lambda>r. column 1 r - column 3 r * 0.5) t)
             (map2 (set_column 0) (map (\<lambda>r. column 0 r - column 2 r * 0.5) t) t)))
        = convert_bbox_center_xywh_tensor_to_xyxy t"
    by (auto simp: list_eq_iff_nth_eq convert_bbox_center_xywh_tensor_to_xyxy_def
        column_def set_column_def split: prod.splits)
  then show ?thesis
    using assms by (simp add: convert_bbox_center_xywh_tensor_to_xyxy_st_def c Let_def r
        assign_column_last)
qed

lemma convert_st_fail:
  assumes "read_float s a = None"
  shows "convert_bbox_center_xywh_tensor_to_xyxy_st a s = (Inl RuntimeError, s)"
  using assms by (simp add: convert_bbox_center_xywh_tensor_to_xyxy_st_def)

lemma read_float_append: "read_float s a = Some t \<Longrightarrow> read_float (s @ ext) a = Some t"
  by (auto simp: read_float_def lookup_def nth_append split: if_splits)

lemma read_long_append: "read_long s a = Some t \<Longrightarrow> read_long (s @ ext) a = Some t"
  by (auto simp: read_long_def lookup_def nth_append split: if_splits)

lemma encode_st_result:
  assumes ra: "read_float s A = Some (anchor_boxes self)"
    and rg: "read_float s G = Some gts"
    and rl: "read_long s L = Some labels"
    and run: "encode_st A G L s = (r, s')"
  shows "\<exists>ext. s' = s @ ext \<and>
     (case r of
        Inl e \<Rightarrow> encode self gts labels = Inl e
      | Inr (td_ref, tl_ref) \<Rightarrow>
          length s \<le> td_ref \<and> length s \<le> tl_ref \<and> td_ref \<noteq> tl_ref
          \<and> (\<exists>d l. encode self gts labels = Inr (d, l)
                 \<and> lookup s' td_ref = Some (DeltaTensor d)
                 \<and> lookup s' tl_ref = Some (LongTensor l)))"
proof -
  let ?ca = "convert_bbox_center_xywh_tensor_to_xyxy (anchor_boxes self)"
  let ?cg = "convert_bbox_center_xywh_tensor_to_xyxy gts"
  let ?s2 = "s @ [FloatTensor ?ca, FloatTensor ?cg]"
  have c1: "convert_bbox_center_xywh_tensor_to_xyxy_st A s = (Inr (length s), s @ [FloatTensor ?ca])"
    by (rule convert_st_eq [OF ra])
  have c2: "convert_bbox_center_xywh_tensor_to_xyxy_st G (s @ [FloatTensor ?ca])
              = (Inr (Suc (length s)), ?s2)"
    using convert_st_eq [OF read_float_append [OF rg, of "[FloatTensor ?ca]"]] by simp
  have rows2: "rows ?s2 A = anchor_boxes self" "rows ?s2 G = gts"
    "rows ?s2 (length s) = ?ca" "rows ?s2 (Suc (length s)) = ?cg"
    using read_float_append [OF ra, of "[FloatTensor ?ca, FloatTensor ?cg]"]
      read_float_append [OF rg, of "[FloatTensor ?ca, FloatTensor ?cg]"]
    by (simp_all add: rows_read) (simp_all add: rows_def read_float_def lookup_def nth_append)
  have rl3: "read_long (s @ [FloatTensor ?ca, FloatTensor ?cg, D]) L = Some labels" for D
    using read_long_append [OF rl, of "[FloatTensor ?ca, FloatTensor ?cg, D]"] by simp
  have am: "assign_masked (Suc (Suc (Suc (length s)))) msk v
              (s @ [FloatTensor ?ca, FloatTensor ?cg, D, LongTensor t])
            = s @ [FloatTensor ?ca, FloatTensor ?cg, D, LongTensor (masked_fill t msk v)]"
    for msk v D t
    using assign_masked_last [of "s @ [FloatTensor ?ca, FloatTensor ?cg, D]" msk v t] by simp
  show ?thesis
    using run
    by (auto simp: encode_st_def encode_def best_groundtruth_match_def anchor_groundtruth_ious_def
        Let_def c1 c2 rows2 rl3 alloc_def am lookup_def nth_append
        split: sum.splits)
qed

text \<open>
  C8. Run \<open>encode\<close> on a store in which the manager's anchor tensor and the two inputs
  (ground-truth boxes and labels) are tensor objects, whatever the outcome. Afterwards the
  three objects hold the same values, and so does every other tensor that existed before
  the call: the store has only grown. When the call returns, the two results are objects
  that did not exist before, distinct from each other, and they hold the targets that the
  value model of \<open>encode\<close> computes; when it raises, the value model raises the same
  error.
\<close>

theorem encode_leaves_inputs_unchanged:
  assumes "read_float s anchor_boxes_ref = Some (anchor_boxes self)"
    and "read_float s gt_ref = Some gts"
    and "read_long s lbl_ref = Some labels"
    and "encode_st anchor_boxes_ref gt_ref lbl_ref s = (r, s')"
  shows "read_float s' anchor_boxes_ref = Some (anchor_boxes self)
     \<and> read_float s' gt_ref = Some gts
     \<and> read_long s' lbl_ref = Some labels
     \<and> length s \<le> length s' \<and> take (length s) s' = s
     \<and> (case r of
          Inl e \<Rightarrow> encode self gts labels = Inl e
        | Inr (td_ref, tl_ref) \<Rightarrow>
            length s \<le> td_ref \<and> length s \<le> tl_ref \<and> td_ref \<noteq> tl_ref
            \<and> (\<exists>d l. encode self gts labels = Inr (d, l)
                   \<and> lookup s' td_ref = Some (DeltaTensor d)
                   \<and> lookup s' tl_ref = Some (LongTensor l)))"
proof -
  from encode_st_result [OF assms] obtain ext where
    s': "s' = s @ ext"
    and res: "case r of
          Inl e \<Rightarrow> encode self gts labels = Inl e
        | Inr (td_ref, tl_ref) \<Rightarrow>
            length s \<le> td_ref \<and> length s \<le> tl_ref \<and> td_ref \<noteq> tl_ref
            \<and> (\<exists>d l. encode self gts labels = Inr (d, l)
                   \<and> lookup s' td_ref = Some (DeltaTensor d)
                   \<and> lookup s' tl_ref = Some (LongTensor l))"
    by blast
  have "read_float s' anchor_boxes_ref = Some (anchor_boxes self)"
    and "read_float s' gt_ref = Some gts"
    and "read_long s' lbl_ref = Some labels"
    unfolding s'
    by (rule read_float_append [OF assms(1)], rule read_float_append [OF assms(2)],
        rule read_long_append [OF assms(3)])
  moreover have "length s \<le> length s'" and "take (length s) s' = s"
    by (simp_all add: s')
  ultimately show ?thesis using res by simp
qed

lemmas store_defs = encode_st_def convert_bbox_center_xywh_tensor_to_xyxy_st_def clone_def
  alloc_def lookup_def read_float_def read_long_def rows_def column_def set_column_def
  assign_column_def assign_masked_def tensor_max_dim1_def row_max_def index_select_def
  masked_fill_def flog_def

theorem encode_leaves_inputs_unchanged_witness:
  "read_float [FloatTensor [(8, 8, 10, 10)], FloatTensor [(8, 8, 5, 10)], LongTensor [7]] 0
     = Some [(8, 8, 10, 10)]
   \<and> read_float [FloatTensor [(8, 8, 10, 10)], FloatTensor [(8, 8, 5, 10)], LongTensor [7]] 1
     = Some [(8, 8, 5, 10)]
   \<and> read_long [FloatTensor [(8, 8, 10, 10)], FloatTensor [(8, 8, 5, 10)], LongTensor [7]] 2
     = Some [7]
   \<and> encode_st 0 1 2 [FloatTensor [(8, 8, 10, 10)], FloatTensor [(8, 8, 5, 10)], LongTensor [7]]
     = (Inr (5, 6),
        [FloatTensor [(8, 8, 10, 10)], FloatTensor [(8, 8, 5, 10)], LongTensor [7],
         FloatTensor [(3, 3, 13, 13)], FloatTensor [(5.5, 3, 10.5, 13)],
         DeltaTensor [(Some 0, Some 0, Some (ln (1 / 2)), Some 0)], LongTensor [8]])
   \<and> take 3 [FloatTensor [(8, 8, 10, 10)], FloatTensor [(8, 8, 5, 10)], LongTensor [7],
         FloatTensor [(3, 3, 13, 13)], FloatTensor [(5.5, 3, 10.5, 13)],
         DeltaTensor [(Some 0, Some 0, Some (ln (1 / 2)), Some 0)], LongTensor [8 :: long]]
     = [FloatTensor [(8, 8, 10, 10)], FloatTensor [(8, 8, 5, 10)], LongTensor [7]]"
proof -
  let ?s = "[FloatTensor [(8, 8, 10, 10)], FloatTensor [(8, 8, 5, 10)], LongTensor [7]]"
  let ?m = "\<lparr>input_image_size = (16, 16), anchor_areas = [100], aspect_ratios = [1], stride = 16,
            anchor_boxes = [(8, 8, 10, 10)]\<rparr>"
  have h1: "read_float ?s 0 = Some (anchor_boxes ?m)" by (simp add: read_float_def lookup_def)
  have h2: "read_float ?s 1 = Some [(8, 8, 5, 10)]" by (simp add: read_float_def lookup_def)
  have h3: "read_long ?s 2 = Some [7]" by (simp add: read_long_def lookup_def)
  have run: "encode_st 0 1 2 ?s
     = (Inr (5, 6),
        ?s @ [FloatTensor [(3, 3, 13, 13)], FloatTensor [(5.5, 3, 10.5, 13)],
         DeltaTensor [(Some 0, Some 0, Some (ln (1 / 2)), Some 0)], LongTensor [8]])"
    by (simp add: store_defs eval_defs)
  from encode_leaves_inputs_unchanged [OF h1 h2 h3 run] h1 h2 h3 run
  show ?thesis by simp
qed

end
